theory Spec2Isabelle
  imports Main "HOL-Library.Multiset" "HOL-Library.Sublist" "HOL-Library.AList"
begin

section \<open>Structural extractor: cyclomatic complexity (analyzer.py, CodeAnalyzer)\<close>

text \<open>
  The syntax tree that \<^verbatim>\<open>ast.parse\<close> returns, reduced to the node classes the
  two complexity functions tell apart. Every constructor carries the node's children in
  the order of \<^verbatim>\<open>ast.iter_child_nodes\<close>. For \<open>BoolOp\<close> the list is the field
  \<^verbatim>\<open>values\<close> (the operands); its operator child (\<^verbatim>\<open>ast.And\<close> or
  \<^verbatim>\<open>ast.Or\<close>) is a leaf of no counted class and is left out.
\<close>

datatype ast =
    If "ast list"
  | While "ast list"
  | For "ast list"
  | ExceptHandler "ast list"
  | BoolOp "ast list"
  | FunctionDef string "ast list"
  | Other "ast list"

fun children :: "ast \<Rightarrow> ast list" where
  "children (If cs) = cs"
| "children (While cs) = cs"
| "children (For cs) = cs"
| "children (ExceptHandler cs) = cs"
| "children (BoolOp cs) = cs"
| "children (FunctionDef name cs) = cs"
| "children (Other cs) = cs"

lemma size_children: "sum_list (map size (children n)) < size n"
  by (cases n) (simp_all add: size_list_conv_sum_list)

lemma size_child [termination_simp]: "x \<in> set (children n) \<Longrightarrow> size x < size n"
proof -
  assume "x \<in> set (children n)"
  then have "size x \<le> sum_list (map size (children n))"
    by (simp add: member_le_sum_list)
  with size_children [of n] show ?thesis by simp
qed

text \<open>
  \<^verbatim>\<open>ast.walk(node)\<close>: a queue that starts with the node; the first node is taken
  out, its children are put at the end, and the node is yielded.
\<close>

function walk_queue :: "ast list \<Rightarrow> ast list" where
  "walk_queue [] = []"
| "walk_queue (n # todo) = n # walk_queue (todo @ children n)"
  by pat_completeness auto
termination
proof (relation "measure (\<lambda>todo. sum_list (map size todo))")
  show "wf (measure (\<lambda>todo. sum_list (map size todo)))" by simp
next
  fix n :: ast and todo :: "ast list"
  show "(todo @ children n, n # todo) \<in> measure (\<lambda>todo. sum_list (map size todo))"
    using size_children [of n] by simp
qed

definition walk :: "ast \<Rightarrow> ast list" where
  "walk node = walk_queue [node]"

text \<open>
  \<^verbatim>\<open>isinstance(node, (ast.If, ast.While, ast.For, ast.ExceptHandler))\<close>.
\<close>

fun is_branch :: "ast \<Rightarrow> bool" where
  "is_branch (If cs) = True"
| "is_branch (While cs) = True"
| "is_branch (For cs) = True"
| "is_branch (ExceptHandler cs) = True"
| "is_branch n = False"

text \<open>One round of the loop body of \<^verbatim>\<open>_calculate_complexity\<close>.\<close>

fun complexity_step :: "int \<Rightarrow> ast \<Rightarrow> int" where
  "complexity_step complexity (BoolOp vs) = complexity + (int (length vs) - 1)"
| "complexity_step complexity n = (if is_branch n then complexity + 1 else complexity)"

definition calculate_complexity :: "ast \<Rightarrow> int" where
  "calculate_complexity tree = foldl complexity_step 1 (walk tree)"

text \<open>One round of the loop body of \<^verbatim>\<open>_calculate_function_complexity\<close>.\<close>

fun function_complexity_step :: "int \<Rightarrow> ast \<Rightarrow> int" where
  "function_complexity_step complexity n = (if is_branch n then complexity + 1 else complexity)"

definition calculate_function_complexity :: "ast \<Rightarrow> int" where
  "calculate_function_complexity func_node = foldl function_complexity_step 1 (walk func_node)"

text \<open>
  The formula of the specification, by recursion on the tree: the number of branching
  constructs, and the operand count less one of every boolean operator.
\<close>

fun branch_count :: "ast \<Rightarrow> int" where
  "branch_count n = (if is_branch n then 1 else 0) + sum_list (map branch_count (children n))"

fun boolop_fanin :: "ast \<Rightarrow> int" where
  "boolop_fanin n =
     (case n of BoolOp vs \<Rightarrow> int (length vs) - 1 | _ \<Rightarrow> 0) + sum_list (map boolop_fanin (children n))"

definition cyclomatic :: "ast \<Rightarrow> int" where
  "cyclomatic n = 1 + branch_count n + boolop_fanin n"

text \<open>
  The function of the example below, \<^verbatim>\<open>def f(a, b): return a and b\<close>: the
  children of the \<open>FunctionDef\<close> are its \<^verbatim>\<open>arguments\<close> node (with the two
  \<^verbatim>\<open>arg\<close> nodes) and the \<^verbatim>\<open>Return\<close> statement, whose value is the
  \<open>BoolOp\<close> over two \<^verbatim>\<open>Name\<close> nodes (each with its \<^verbatim>\<open>Load\<close> context).
\<close>

definition and_function :: ast where
  "and_function =
     FunctionDef ''f'' [Other [Other [], Other []],
                        Other [BoolOp [Other [Other []], Other [Other []]]]]"

subsection \<open>The two complexity loops against the formula\<close>

lemma complexity_step_eq:
  "complexity_step acc n =
     acc + (if is_branch n then 1 else 0) + (case n of BoolOp vs \<Rightarrow> int (length vs) - 1 | _ \<Rightarrow> 0)"
  by (cases n) simp_all

lemma foldl_complexity_step_walk:
  "foldl complexity_step acc (walk_queue todo) =
     acc + sum_list (map branch_count todo) + sum_list (map boolop_fanin todo)"
proof (induction todo arbitrary: acc rule: walk_queue.induct)
  case 1
  show ?case by simp
next
  case (2 n todo)
  have "foldl complexity_step acc (walk_queue (n # todo)) =
          foldl complexity_step (complexity_step acc n) (walk_queue (todo @ children n))"
    by simp
  also have "\<dots> = complexity_step acc n + sum_list (map branch_count (todo @ children n))
                    + sum_list (map boolop_fanin (todo @ children n))"
    by (rule "2.IH")
  also have "\<dots> = acc + sum_list (map branch_count (n # todo)) + sum_list (map boolop_fanin (n # todo))"
    by (simp add: complexity_step_eq branch_count.simps [of n] boolop_fanin.simps [of n]
        del: branch_count.simps boolop_fanin.simps complexity_step.simps)
  finally show ?case .
qed

text \<open>The whole-file loop computes the formula of the specification.\<close>

lemma calculate_complexity_cyclomatic: "calculate_complexity tree = cyclomatic tree"
  by (simp add: calculate_complexity_def cyclomatic_def walk_def foldl_complexity_step_walk
      del: branch_count.simps boolop_fanin.simps walk_queue.simps)

lemma foldl_function_complexity_step_walk:
  "foldl function_complexity_step acc (walk_queue todo) = acc + sum_list (map branch_count todo)"
proof (induction todo arbitrary: acc rule: walk_queue.induct)
  case 1
  show ?case by simp
next
  case (2 n todo)
  have "foldl function_complexity_step acc (walk_queue (n # todo)) =
          foldl function_complexity_step (function_complexity_step acc n)
            (walk_queue (todo @ children n))"
    by simp
  also have "\<dots> = function_complexity_step acc n + sum_list (map branch_count (todo @ children n))"
    by (rule "2.IH")
  also have "\<dots> = acc + sum_list (map branch_count (n # todo))"
    by (simp add: branch_count.simps [of n] del: branch_count.simps)
  finally show ?case .
qed

text \<open>
  The per-function loop has no \<open>BoolOp\<close> branch: it falls short of the formula by the
  boolean-operator term.
\<close>

lemma calculate_function_complexity_eq:
  "calculate_function_complexity f = cyclomatic f - boolop_fanin f"
  by (simp add: calculate_function_complexity_def cyclomatic_def walk_def
      foldl_function_complexity_step_walk
      del: branch_count.simps boolop_fanin.simps walk_queue.simps)

text \<open>
  Claim C6: the whole-file complexity and each function's complexity both equal
  1 + branching constructs + the summed (fan-in - 1) of the boolean operators.
  The code does not do this for the per-function figure. For
  \<^verbatim>\<open>def f(a, b): return a and b\<close> the formula gives 2, and so does
  \<^verbatim>\<open>_calculate_complexity\<close> both on the function and on a file holding only it,
  while \<^verbatim>\<open>_calculate_function_complexity\<close> returns 1.
\<close>

theorem function_complexity_ignores_boolop:
  "calculate_function_complexity and_function = 1
   \<and> cyclomatic and_function = 2
   \<and> calculate_complexity and_function = 2
   \<and> calculate_complexity (Other [and_function]) = 2"
  by (simp add: calculate_function_complexity_def calculate_complexity_def cyclomatic_def
      walk_def and_function_def)

section \<open>Strings and regular expressions of the Python runtime\<close>

text \<open>
  Python strings are sequences of code points; the model reads a \<^typ>\<open>char\<close> as one
  code point in the range 0..255. The functions below are the operations of \<^verbatim>\<open>str\<close>
  and \<^verbatim>\<open>re\<close> that the regression detector calls, over that range.
\<close>

text \<open>\<^verbatim>\<open>sub in s\<close> for two strings.\<close>

fun str_in :: "string \<Rightarrow> string \<Rightarrow> bool" where
  "str_in sub [] = (sub = [])"
| "str_in sub (c # s) = (prefix sub (c # s) \<or> str_in sub s)"

text \<open>\<^verbatim>\<open>s.split(sep)\<close> for a separator of one character.\<close>

fun split_on :: "char \<Rightarrow> string \<Rightarrow> string list" where
  "split_on sep [] = [[]]"
| "split_on sep (c # s) =
     (if c = sep then [] # split_on sep s
      else (case split_on sep s of [] \<Rightarrow> [[c]] | w # ws \<Rightarrow> (c # w) # ws))"

text \<open>
  The white space of \<^verbatim>\<open>str.isspace\<close> and of the class \<^verbatim>\<open>\s\<close>: the code
  points 9 to 13, 28 to 32, 133 and 160.
\<close>

definition is_space :: "char \<Rightarrow> bool" where
  "is_space c =
     (let n = (of_char c :: nat) in (9 \<le> n \<and> n \<le> 13) \<or> (28 \<le> n \<and> n \<le> 32) \<or> n = 133 \<or> n = 160)"

text \<open>The class \<^verbatim>\<open>\w\<close>: the alphanumeric code points and the underscore.\<close>

definition is_word :: "char \<Rightarrow> bool" where
  "is_word c =
     (let n = (of_char c :: nat) in
        (48 \<le> n \<and> n \<le> 57) \<or> (65 \<le> n \<and> n \<le> 90) \<or> n = 95 \<or> (97 \<le> n \<and> n \<le> 122)
        \<or> n = 170 \<or> n = 178 \<or> n = 179 \<or> n = 181 \<or> n = 185 \<or> n = 186
        \<or> (188 \<le> n \<and> n \<le> 190) \<or> (192 \<le> n \<and> n \<le> 214) \<or> (216 \<le> n \<and> n \<le> 246)
        \<or> 248 \<le> n)"

text \<open>\<^verbatim>\<open>s.strip()\<close>.\<close>

definition strip :: "string \<Rightarrow> string" where
  "strip s = rev (dropWhile is_space (rev (dropWhile is_space s)))"

text \<open>
  Case folding of \<^verbatim>\<open>re.IGNORECASE\<close> for the ASCII letters, which are the only
  letters the patterns of the detector contain.
\<close>

definition fold_case :: "char \<Rightarrow> char" where
  "fold_case c =
     (let n = (of_char c :: nat) in if 65 \<le> n \<and> n \<le> 90 then char_of (n + 32) else c)"

text \<open>
  The patterns of the detector are sequences of single characters, character classes
  under \<^verbatim>\<open>*\<close> or \<^verbatim>\<open>+\<close>, and alternations of literal words. Capture groups
  are dropped where the code only tests whether \<^verbatim>\<open>search\<close> finds a match.
\<close>

datatype cclass =
    Exactly char
  | OneOf "char list"
  | NoneOf "char list"
  | Space
  | Dot
  | UpperUnderscore

fun in_class :: "bool \<Rightarrow> cclass \<Rightarrow> char \<Rightarrow> bool" where
  "in_class ic (Exactly c) x = (if ic then fold_case x = fold_case c else x = c)"
| "in_class ic (OneOf cs) x = (x \<in> set cs)"
| "in_class ic (NoneOf cs) x = (x \<notin> set cs)"
| "in_class ic Space x = is_space x"
| "in_class ic Dot x = (x \<noteq> CHR 0x0A)"
| "in_class ic UpperUnderscore x =
     (let n = (of_char x :: nat) in (65 \<le> n \<and> n \<le> 90) \<or> n = 95
        \<or> (ic \<and> 97 \<le> n \<and> n \<le> 122))"

datatype rx = One cclass | Star cclass | Plus cclass | Alt "string list"

definition lit :: "string \<Rightarrow> rx list" where
  "lit w = map (\<lambda>c. One (Exactly c)) w"

text \<open>A literal word at the start of the string, under the case flag.\<close>

fun lit_prefix :: "bool \<Rightarrow> string \<Rightarrow> string \<Rightarrow> bool" where
  "lit_prefix ic [] s = True"
| "lit_prefix ic (c # w) [] = False"
| "lit_prefix ic (c # w) (x # s) = (in_class ic (Exactly c) x \<and> lit_prefix ic w s)"

text \<open>
  \<open>rx_match ic p s\<close>: the pattern \<open>p\<close> matches at the start of \<open>s\<close>.
  \<open>rx_search\<close> is the truth value of \<^verbatim>\<open>pattern.search(s)\<close>: a match at some
  position.
\<close>

function rx_match :: "bool \<Rightarrow> rx list \<Rightarrow> string \<Rightarrow> bool" where
  "rx_match ic [] s = True"
| "rx_match ic (One c # p) [] = False"
| "rx_match ic (One c # p) (x # s) = (in_class ic c x \<and> rx_match ic p s)"
| "rx_match ic (Star c # p) [] = rx_match ic p []"
| "rx_match ic (Star c # p) (x # s) =
     (rx_match ic p (x # s) \<or> (in_class ic c x \<and> rx_match ic (Star c # p) s))"
| "rx_match ic (Plus c # p) [] = False"
| "rx_match ic (Plus c # p) (x # s) = (in_class ic c x \<and> rx_match ic (Star c # p) s)"
| "rx_match ic (Alt ws # p) s =
     list_ex (\<lambda>w. lit_prefix ic w s \<and> rx_match ic p (drop (length w) s)) ws"
  by pat_completeness auto
termination
  by (relation "measures [\<lambda>(ic, p, s). length s, \<lambda>(ic, p, s). length p]") auto

fun rx_search :: "bool \<Rightarrow> rx list \<Rightarrow> string \<Rightarrow> bool" where
  "rx_search ic p [] = rx_match ic p []"
| "rx_search ic p (x # s) = (rx_match ic p (x # s) \<or> rx_search ic p s)"

text \<open>
  \<^verbatim>\<open>re.search(r'def\s+(\w+)\s*\(([^)]*)\)', line)\<close> with its two groups, the
  function name and the text between the parentheses. Each repeated class is disjoint
  from what follows it, so at a given start the match, if any, takes the longest run of
  each class; \<^verbatim>\<open>search\<close> returns the match of the leftmost start.
\<close>

definition func_pattern_at :: "string \<Rightarrow> (string \<times> string) option" where
  "func_pattern_at s =
     (if \<not> prefix ''def'' s then None
      else let r = drop 3 s; r1 = dropWhile is_space r in
        if takeWhile is_space r = [] then None
        else let name = takeWhile is_word r1; r2 = dropWhile is_space (dropWhile is_word r1) in
          if name = [] then None
          else (case r2 of
                  [] \<Rightarrow> None
                | x # r3 \<Rightarrow>
                    if x \<noteq> CHR ''('' then None
                    else if dropWhile (\<lambda>c. c \<noteq> CHR '')'') r3 = [] then None
                    else Some (name, takeWhile (\<lambda>c. c \<noteq> CHR '')'') r3)))"

fun func_pattern_search :: "string \<Rightarrow> (string \<times> string) option" where
  "func_pattern_search [] = func_pattern_at []"
| "func_pattern_search (x # s) =
     (case func_pattern_at (x # s) of Some m \<Rightarrow> Some m | None \<Rightarrow> func_pattern_search s)"

section \<open>Regression risk classifier (regression.py, RegressionDetector)\<close>

record code_change =
  file_path :: string
  change_type :: string
  diff :: string
  line_changes :: "(string \<times> int) list"
  semantic_changes :: "string list"

record regression_risk =
  risk_type :: string
  severity :: string
  description :: string
  affected_components :: "string list"
  mitigation :: "string option"
  test_suggestions :: "string list"

text \<open>
  The order in which Python iterates over a set of strings depends on the hashes of the
  strings, which CPython draws anew for every interpreter process. The detector iterates
  over two sets; the model takes that order as the parameter \<open>set_iter\<close>, a function
  from the elements of a set (without repetition, in insertion order) to the order of
  iteration. \<open>valid_set_iter\<close> says that it only reorders.
\<close>

type_synonym set_order = "string list \<Rightarrow> string list"


subsection \<open>The compiled patterns\<close>

definition quote :: cclass where
  "quote = OneOf [CHR 0x27, CHR 0x22]"

definition not_quote :: cclass where
  "not_quote = NoneOf [CHR 0x27, CHR 0x22]"

definition http_verbs :: "string list" where
  "http_verbs = [''get'', ''post'', ''put'', ''delete'', ''patch'']"

text \<open>\<^verbatim>\<open>_compile_api_patterns\<close>: the values of the dictionary, in its order.\<close>

definition flask_route :: "rx list" where
  "flask_route = lit ''@app.route'' @ [Star Space, One (Exactly CHR ''(''), One quote,
     Plus not_quote, One quote, One (Exactly CHR '')'')]"

definition fastapi_route :: "rx list" where
  "fastapi_route = lit ''@'' @ [Alt [''app'', ''router'']] @ lit ''.'' @ [Alt http_verbs,
     Star Space, One (Exactly CHR ''(''), One quote, Plus not_quote, One quote,
     One (Exactly CHR '')'')]"

definition django_url :: "rx list" where
  "django_url = lit ''path'' @ [Star Space, One (Exactly CHR ''(''), One quote,
     Plus not_quote, One quote]"

definition express_route :: "rx list" where
  "express_route = [Alt [''app'', ''router'']] @ lit ''.'' @ [Alt http_verbs,
     Star Space, One (Exactly CHR ''(''), One quote, Plus not_quote, One quote]"

definition api_patterns :: "rx list list" where
  "api_patterns = [flask_route, fastapi_route, django_url, express_route]"

definition sql_words :: "string list" where
  "sql_words = [''SELECT'', ''INSERT'', ''UPDATE'', ''DELETE'']"

text \<open>The three \<^verbatim>\<open>sql_patterns\<close> and the two \<^verbatim>\<open>secret_patterns\<close> of
  \<^verbatim>\<open>_check_security_impacts\<close>; all are searched with \<^verbatim>\<open>re.IGNORECASE\<close>.\<close>

definition sql_patterns :: "rx list list" where
  "sql_patterns =
     [lit ''.format'' @ [Star Space, One (Exactly CHR ''(''), Star Dot, One (Exactly CHR '')''),
        Star Dot, Alt sql_words],
      lit ''%'' @ [Star Space, One (Exactly CHR ''(''), Star Dot, One (Exactly CHR '')''),
        Star Dot, Alt sql_words],
      lit ''+'' @ [Star Dot, Alt sql_words]]"

definition secret_patterns :: "rx list list" where
  "secret_patterns =
     [[Alt [''password'', ''secret'', ''key'', ''token''], Star Space, One (Exactly CHR ''=''),
        Star Space, One quote, Plus not_quote, One quote],
      [Alt [''AWS'', ''AZURE'', ''GCP''], One (Exactly CHR ''_''), Plus UpperUnderscore,
        Star Space, One (Exactly CHR ''=''), Star Space, One quote, Plus not_quote, One quote]]"

subsection \<open>Rule families of one change\<close>

definition has_any :: "string list \<Rightarrow> string \<Rightarrow> bool" where
  "has_any kws l = list_ex (\<lambda>kw. str_in kw l) kws"

text \<open>One round of the loop over \<^verbatim>\<open>self.api_patterns.items()\<close>.\<close>

definition api_pattern_risks :: "rx list \<Rightarrow> string list \<Rightarrow> string list \<Rightarrow> string \<Rightarrow> regression_risk list" where
  "api_pattern_risks pattern removed added fp =
     (case map strip (filter (rx_search False pattern) removed) of
        [] \<Rightarrow> []
      | first_match # _ \<Rightarrow>
          if filter (rx_search False pattern) added = [] then
            [\<lparr>risk_type = ''api_change'', severity = ''critical'',
              description = ''API endpoint removed: '' @ first_match,
              affected_components = [fp],
              mitigation = Some ''Add deprecation notice and migration path'',
              test_suggestions = [''Test all client applications'',
                ''Verify API backward compatibility'', ''Check API documentation updates'']\<rparr>]
          else
            [\<lparr>risk_type = ''api_change'', severity = ''high'',
              description = ''API endpoint modified in '' @ fp,
              affected_components = [fp],
              mitigation = Some ''Ensure backward compatibility or version the API'',
              test_suggestions = [''Test with existing API clients'',
                ''Verify request/response format compatibility'', ''Update API tests'']\<rparr>])"

record param_change =
  pc_function :: string
  pc_removed :: "string list"
  pc_added :: "string list"

text \<open>
  The dictionaries \<^verbatim>\<open>removed_funcs\<close> and \<^verbatim>\<open>added_funcs\<close> of
  \<^verbatim>\<open>_detect_parameter_changes\<close>: a later line of the same function name replaces
  the parameters and keeps the key's place.
\<close>

definition record_func :: "(string \<times> string list) list \<Rightarrow> string \<Rightarrow> (string \<times> string list) list" where
  "record_func funcs line =
     (case func_pattern_search line of
        None \<Rightarrow> funcs
      | Some (func_name, params) \<Rightarrow>
          AList.update func_name
            (filter (\<lambda>p. p \<noteq> []) (map strip (split_on CHR '','' params))) funcs)"

definition funcs_of :: "string list \<Rightarrow> (string \<times> string list) list" where
  "funcs_of lines = foldl record_func [] lines"

text \<open>\<^verbatim>\<open>list(set(xs) - set(ys))\<close>.\<close>

definition set_minus_list :: "set_order \<Rightarrow> string list \<Rightarrow> string list \<Rightarrow> string list" where
  "set_minus_list set_iter xs ys = set_iter (remdups (filter (\<lambda>x. x \<notin> set ys) xs))"

definition detect_parameter_changes :: "set_order \<Rightarrow> string list \<Rightarrow> string list \<Rightarrow> param_change list" where
  "detect_parameter_changes set_iter removed added =
     (let removed_funcs = funcs_of removed; added_funcs = funcs_of added;
          common = set_iter (filter (\<lambda>k. k \<in> set (map fst added_funcs)) (map fst removed_funcs))
      in concat (map (\<lambda>func_name.
           (case (map_of removed_funcs func_name, map_of added_funcs func_name) of
              (Some r, Some a) \<Rightarrow>
                if r \<noteq> a then
                  [\<lparr>pc_function = func_name,
                    pc_removed = set_minus_list set_iter r a,
                    pc_added = set_minus_list set_iter a r\<rparr>]
                else []
            | _ \<Rightarrow> [])) common))"

definition param_change_risk :: "string \<Rightarrow> param_change \<Rightarrow> regression_risk" where
  "param_change_risk fp pc =
     \<lparr>risk_type = ''api_change'',
      severity = (if pc_removed pc \<noteq> [] then ''high'' else ''medium''),
      description = ''Function parameters changed: '' @ pc_function pc,
      affected_components = [fp],
      mitigation = Some ''Update all callers or maintain backward compatibility'',
      test_suggestions = [''Test all calls to '' @ pc_function pc,
        ''Verify parameter validation'', ''Check default parameter values'']\<rparr>"

definition check_api_changes :: "set_order \<Rightarrow> string list \<Rightarrow> string list \<Rightarrow> string \<Rightarrow> regression_risk list" where
  "check_api_changes set_iter removed added fp =
     concat (map (\<lambda>pattern. api_pattern_risks pattern removed added fp) api_patterns)
     @ map (param_change_risk fp) (detect_parameter_changes set_iter removed added)"

definition control_flow_risk :: "string \<Rightarrow> regression_risk" where
  "control_flow_risk fp =
     \<lparr>risk_type = ''behavior_change'', severity = ''high'',
      description = ''Control flow logic modified'',
      affected_components = [fp],
      mitigation = Some ''Ensure all edge cases are covered'',
      test_suggestions = [''Test all conditional branches'', ''Verify edge cases'',
        ''Check boundary conditions'']\<rparr>"

definition return_values_risk :: "string \<Rightarrow> regression_risk" where
  "return_values_risk fp =
     \<lparr>risk_type = ''behavior_change'', severity = ''high'',
      description = ''Return values modified'',
      affected_components = [fp],
      mitigation = Some ''Verify all callers handle new return values'',
      test_suggestions = [''Test return value compatibility'', ''Check error handling'',
        ''Verify type consistency'']\<rparr>"

definition exception_risk :: "string \<Rightarrow> regression_risk" where
  "exception_risk fp =
     \<lparr>risk_type = ''behavior_change'', severity = ''medium'',
      description = ''Exception handling modified'',
      affected_components = [fp],
      mitigation = Some ''Ensure error handling remains robust'',
      test_suggestions = [''Test error scenarios'', ''Verify exception propagation'',
        ''Check error messages'']\<rparr>"

definition check_behavior_changes :: "string list \<Rightarrow> string list \<Rightarrow> string \<Rightarrow> regression_risk list" where
  "check_behavior_changes removed added fp =
     (let removed_conditions = filter (has_any [''if '', ''elif '', ''while '', ''for '']) removed;
          added_conditions = filter (has_any [''if '', ''elif '', ''while '', ''for '']) added;
          removed_returns = filter (str_in ''return '') removed;
          added_returns = filter (str_in ''return '') added;
          removed_exceptions = filter (has_any [''except '', ''raise '', ''try:'']) removed;
          added_exceptions = filter (has_any [''except '', ''raise '', ''try:'']) added
      in (if removed_conditions \<noteq> [] \<and> added_conditions \<noteq> [] then [control_flow_risk fp] else [])
         @ (if removed_returns \<noteq> added_returns then [return_values_risk fp] else [])
         @ (if removed_exceptions \<noteq> [] \<or> added_exceptions \<noteq> [] then [exception_risk fp] else []))"

definition check_performance_impacts :: "string list \<Rightarrow> string list \<Rightarrow> string \<Rightarrow> regression_risk list" where
  "check_performance_impacts removed added fp =
     (let removed_loops = length (filter (has_any [''for '', ''while '']) removed);
          added_loops = length (filter (has_any [''for '', ''while '']) added);
          db_patterns = [''SELECT'', ''INSERT'', ''UPDATE'', ''DELETE'', ''.query('', ''.filter('',
                         ''.all()'', ''.first()''];
          removed_queries = length (filter (has_any db_patterns) removed);
          added_queries = length (filter (has_any db_patterns) added);
          sync_io = filter (has_any [''open('', ''requests.'', ''urllib.'']) added
      in (if added_loops > removed_loops then
            [\<lparr>risk_type = ''performance'', severity = ''medium'',
              description = ''Additional loops added, potential performance impact'',
              affected_components = [fp],
              mitigation = Some ''Profile code and optimize if necessary'',
              test_suggestions = [''Run performance benchmarks'', ''Test with large datasets'',
                ''Monitor resource usage'']\<rparr>]
          else [])
         @ (if added_queries > removed_queries then
            [\<lparr>risk_type = ''performance'', severity = ''high'',
              description = ''Additional database queries detected'',
              affected_components = [fp],
              mitigation = Some ''Consider query optimization or caching'',
              test_suggestions = [''Profile database queries'', ''Check for N+1 query problems'',
                ''Test query performance'']\<rparr>]
          else [])
         @ (if list_ex (str_in ''async '') added \<and> sync_io \<noteq> [] then
            [\<lparr>risk_type = ''performance'', severity = ''high'',
              description = ''Synchronous I/O in async function'',
              affected_components = [fp],
              mitigation = Some ''Use async I/O libraries'',
              test_suggestions = [''Test async performance'', ''Check for blocking operations'',
                ''Monitor event loop'']\<rparr>]
          else []))"

text \<open>
  \<^verbatim>\<open>_check_security_impacts\<close>. Each of its two loops over patterns appends at most
  one risk and leaves at the first pattern that some added line matches.
\<close>

definition check_security_impacts :: "string list \<Rightarrow> string list \<Rightarrow> string \<Rightarrow> regression_risk list" where
  "check_security_impacts removed added fp =
     (let auth_patterns = [''@login_required'', ''@requires_auth'', ''check_permission'',
                           ''authenticate''];
          removed_auth = list_ex (has_any auth_patterns) removed;
          added_auth = list_ex (has_any auth_patterns) added
      in (if list_ex (\<lambda>pattern. list_ex (rx_search True pattern) added) sql_patterns then
            [\<lparr>risk_type = ''security'', severity = ''critical'',
              description = ''Potential SQL injection vulnerability'',
              affected_components = [fp],
              mitigation = Some ''Use parameterized queries'',
              test_suggestions = [''Test with malicious input'', ''Run security scanning tools'',
                ''Review query construction'']\<rparr>]
          else [])
         @ (if removed_auth \<and> \<not> added_auth then
            [\<lparr>risk_type = ''security'', severity = ''critical'',
              description = ''Authentication/authorization checks removed'',
              affected_components = [fp],
              mitigation = Some ''Ensure proper access controls remain in place'',
              test_suggestions = [''Test unauthorized access attempts'', ''Verify permission checks'',
                ''Audit access logs'']\<rparr>]
          else [])
         @ (if list_ex (\<lambda>pattern. list_ex (rx_search True pattern) added) secret_patterns then
            [\<lparr>risk_type = ''security'', severity = ''critical'',
              description = ''Hardcoded secrets detected'',
              affected_components = [fp],
              mitigation = Some ''Use environment variables or secret management service'',
              test_suggestions = [''Scan for exposed secrets'', ''Verify secret rotation'',
                ''Check environment configuration'']\<rparr>]
          else []))"

text \<open>
  The removed and the added lines of a unified diff: the lines that start with
  \<^verbatim>\<open>-\<close> but not \<^verbatim>\<open>---\<close> (with \<^verbatim>\<open>+\<close> likewise), less their first
  character.
\<close>

definition removed_lines :: "string \<Rightarrow> string list" where
  "removed_lines d =
     map (drop 1) (filter (\<lambda>l. prefix ''-'' l \<and> \<not> prefix ''---'' l) (split_on CHR 0x0A d))"

definition added_lines :: "string \<Rightarrow> string list" where
  "added_lines d =
     map (drop 1) (filter (\<lambda>l. prefix ''+'' l \<and> \<not> prefix ''+++'' l) (split_on CHR 0x0A d))"

definition analyze_modification :: "set_order \<Rightarrow> code_change \<Rightarrow> 'c \<Rightarrow> regression_risk list" where
  "analyze_modification set_iter change context =
     (let removed = removed_lines (diff change); added = added_lines (diff change)
      in check_api_changes set_iter removed added (file_path change)
         @ check_behavior_changes removed added (file_path change)
         @ check_performance_impacts removed added (file_path change)
         @ check_security_impacts removed added (file_path change))"

definition analyze_addition :: "code_change \<Rightarrow> 'c \<Rightarrow> regression_risk list" where
  "analyze_addition change context =
     (if str_in ''import'' (diff change) \<or> str_in ''require'' (diff change) then
        [\<lparr>risk_type = ''behavior_change'', severity = ''low'',
          description = ''New dependencies introduced'',
          affected_components = [file_path change],
          mitigation = Some ''Verify dependency compatibility and security'',
          test_suggestions = [''Check dependency versions'', ''Run security audit'',
            ''Test in isolated environment'']\<rparr>]
      else [])"

definition analyze_rename :: "code_change \<Rightarrow> 'c \<Rightarrow> regression_risk list" where
  "analyze_rename change context =
     [\<lparr>risk_type = ''api_change'', severity = ''medium'',
       description = ''File renamed: '' @ file_path change,
       affected_components = [file_path change],
       mitigation = Some ''Update all imports and references'',
       test_suggestions = [''Verify all imports are updated'', ''Check configuration files'',
         ''Test module loading'']\<rparr>]"

subsection \<open>Rules across changes, deduplication and ranking\<close>

text \<open>\<^verbatim>\<open>s.add(x)\<close> on a set kept as the list of its elements in insertion order.\<close>

definition set_add :: "string list \<Rightarrow> string \<Rightarrow> string list" where
  "set_add xs x = (if x \<in> set xs then xs else xs @ [x])"

definition modified_interfaces :: "code_change list \<Rightarrow> string list" where
  "modified_interfaces changes =
     foldl set_add []
       (map file_path
         (filter (\<lambda>change. change_type change = ''modify''
                    \<and> has_any [''class '', ''interface '', ''trait ''] (diff change)) changes))"

definition analyze_cross_file_impacts :: "set_order \<Rightarrow> code_change list \<Rightarrow> 'c \<Rightarrow> regression_risk list" where
  "analyze_cross_file_impacts set_iter changes context =
     (if length (modified_interfaces changes) > 1 then
        [\<lparr>risk_type = ''behavior_change'', severity = ''high'',
          description = ''Multiple interfaces modified simultaneously'',
          affected_components = set_iter (modified_interfaces changes),
          mitigation = Some ''Ensure all implementations are updated consistently'',
          test_suggestions = [''Run integration tests'', ''Verify interface contracts'',
            ''Check for version mismatches'']\<rparr>]
      else [])
     @ (if length changes > 10 then
        [\<lparr>risk_type = ''behavior_change'', severity = ''medium'',
          description = ''Large number of files changed'',
          affected_components = map file_path (take 5 changes) @ [''...''],
          mitigation = Some ''Consider breaking into smaller, incremental changes'',
          test_suggestions = [''Run comprehensive test suite'', ''Perform staged rollout'',
            ''Monitor system behavior closely'']\<rparr>]
      else [])"

text \<open>
  \<^verbatim>\<open>_deduplicate_risks\<close>: the key of a risk is the tuple of its type, its
  description and the tuple of its affected components; \<open>seen\<close> is the set of the keys
  met so far.
\<close>

definition risk_key :: "regression_risk \<Rightarrow> string \<times> string \<times> string list" where
  "risk_key risk = (risk_type risk, description risk, affected_components risk)"

fun deduplicate_loop :: "(string \<times> string \<times> string list) set \<Rightarrow> regression_risk list \<Rightarrow> regression_risk list" where
  "deduplicate_loop seen [] = []"
| "deduplicate_loop seen (risk # risks) =
     (if risk_key risk \<in> seen then deduplicate_loop seen risks
      else risk # deduplicate_loop (insert (risk_key risk) seen) risks)"

definition deduplicate_risks :: "regression_risk list \<Rightarrow> regression_risk list" where
  "deduplicate_risks risks = deduplicate_loop {} risks"

definition severity_scores :: "(string \<times> int) list" where
  "severity_scores = [(''critical'', 4), (''high'', 3), (''medium'', 2), (''low'', 1)]"

definition type_scores :: "(string \<times> int) list" where
  "type_scores = [(''security'', 4), (''api_change'', 3), (''behavior_change'', 2), (''performance'', 1)]"

text \<open>\<^verbatim>\<open>d.get(key, 0)\<close>.\<close>

definition get0 :: "(string \<times> int) list \<Rightarrow> string \<Rightarrow> int" where
  "get0 d key = (case map_of d key of Some v \<Rightarrow> v | None \<Rightarrow> 0)"

definition risk_priority :: "regression_risk \<Rightarrow> int" where
  "risk_priority risk = get0 severity_scores (severity risk) * 10 + get0 type_scores (risk_type risk)"

text \<open>
  \<^verbatim>\<open>sorted(risks, key=..., reverse=True)\<close>: Python's sort is stable, and with
  \<^verbatim>\<open>reverse=True\<close> elements of equal key still keep their order. That is the stable
  insertion sort by the negated key.
\<close>

definition sorted_reverse :: "('a \<Rightarrow> int) \<Rightarrow> 'a list \<Rightarrow> 'a list" where
  "sorted_reverse key xs = sort_key (\<lambda>x. - key x) xs"

text \<open>The risks in the order of their discovery, before deduplication.\<close>

definition risks_of_change :: "set_order \<Rightarrow> 'c \<Rightarrow> code_change \<Rightarrow> regression_risk list" where
  "risks_of_change set_iter context change =
     (if change_type change = ''modify'' \<or> change_type change = ''delete'' then
        analyze_modification set_iter change context
      else if change_type change = ''add'' then analyze_addition change context
      else if change_type change = ''rename'' then analyze_rename change context
      else [])"

definition discovered_risks :: "set_order \<Rightarrow> code_change list \<Rightarrow> 'c \<Rightarrow> regression_risk list" where
  "discovered_risks set_iter changes context =
     concat (map (risks_of_change set_iter context) changes)
     @ analyze_cross_file_impacts set_iter changes context"

definition analyze_changes :: "set_order \<Rightarrow> code_change list \<Rightarrow> 'c \<Rightarrow> regression_risk list" where
  "analyze_changes set_iter changes context =
     sorted_reverse risk_priority (deduplicate_risks (discovered_risks set_iter changes context))"

subsection \<open>Ranking of the returned risks\<close>






lemma mset_sorted_reverse: "mset (sorted_reverse key xs) = mset xs"
  by (simp add: sorted_reverse_def)




subsection \<open>The return-value rule\<close>

text \<open>A risk of type behavior_change and severity high about modified return values.\<close>

definition is_return_risk :: "regression_risk \<Rightarrow> bool" where
  "is_return_risk r = (risk_type r = ''behavior_change'' \<and> severity r = ''high''
     \<and> description r = ''Return values modified'')"

lemma api_pattern_risks_not_return:
  "r \<in> set (api_pattern_risks pattern removed added fp) \<Longrightarrow> \<not> is_return_risk r"
  by (auto simp: api_pattern_risks_def is_return_risk_def split: list.splits if_splits)

lemma check_api_changes_not_return:
  "r \<in> set (check_api_changes set_iter removed added fp) \<Longrightarrow> \<not> is_return_risk r"
  by (auto simp: check_api_changes_def param_change_risk_def is_return_risk_def
      dest: api_pattern_risks_not_return [unfolded is_return_risk_def])

lemma check_performance_impacts_not_return:
  "r \<in> set (check_performance_impacts removed added fp) \<Longrightarrow> \<not> is_return_risk r"
  by (auto simp: check_performance_impacts_def is_return_risk_def Let_def split: if_splits)

lemma check_security_impacts_not_return:
  "r \<in> set (check_security_impacts removed added fp) \<Longrightarrow> \<not> is_return_risk r"
  by (auto simp: check_security_impacts_def is_return_risk_def Let_def split: if_splits)

lemma check_behavior_changes_return:
  "(\<exists>r \<in> set (check_behavior_changes removed added fp). is_return_risk r)
     \<longleftrightarrow> filter (str_in ''return '') removed \<noteq> filter (str_in ''return '') added"
  by (auto simp: check_behavior_changes_def is_return_risk_def Let_def
      control_flow_risk_def return_values_risk_def exception_risk_def split: if_splits)

text \<open>
  A diff that removes \<^verbatim>\<open>return a\<close>, \<^verbatim>\<open>return b\<close> and adds the same two lines
  in the other order.
\<close>

definition reordered_returns :: code_change where
  "reordered_returns = \<lparr>file_path = ''f.py'', change_type = ''modify'',
     diff = ''-return a'' @ [CHR 0x0A] @ ''-return b'' @ [CHR 0x0A] @ ''+return b''
              @ [CHR 0x0A] @ ''+return a'',
     line_changes = [(''added'', 2), (''removed'', 2)], semantic_changes = []\<rparr>"

lemmas pattern_defs = api_patterns_def flask_route_def fastapi_route_def django_url_def
  express_route_def sql_patterns_def secret_patterns_def lit_def http_verbs_def sql_words_def
  quote_def not_quote_def

lemma reordered_lines:
  "removed_lines (diff reordered_returns) = [''return a'', ''return b'']"
  "added_lines (diff reordered_returns) = [''return b'', ''return a'']"
  by (simp_all add: reordered_returns_def removed_lines_def added_lines_def)

lemma reordered_behavior:
  "check_behavior_changes [''return a'', ''return b''] [''return b'', ''return a''] ''f.py''
     = [return_values_risk ''f.py'']"
  by (simp add: check_behavior_changes_def has_any_def)

lemma reordered_api:
  "check_api_changes (\<lambda>xs. xs) [''return a'', ''return b''] [''return b'', ''return a''] ''f.py'' = []"
  by (simp add: check_api_changes_def api_pattern_risks_def pattern_defs
      detect_parameter_changes_def funcs_of_def record_func_def func_pattern_at_def)

lemma reordered_performance:
  "check_performance_impacts [''return a'', ''return b''] [''return b'', ''return a''] ''f.py'' = []"
  by (simp add: check_performance_impacts_def has_any_def)

lemma reordered_security:
  "check_security_impacts [''return a'', ''return b''] [''return b'', ''return a''] ''f.py'' = []"
  by (simp add: check_security_impacts_def has_any_def pattern_defs fold_case_def)

lemma reordered_modification:
  "analyze_modification (\<lambda>xs. xs) reordered_returns () = [return_values_risk ''f.py'']"
proof -
  have "file_path reordered_returns = ''f.py''" by (simp add: reordered_returns_def)
  then show ?thesis
    by (simp add: analyze_modification_def reordered_lines reordered_api reordered_performance
        reordered_security reordered_behavior)
qed

lemma reordered_analysis:
  "analyze_changes (\<lambda>xs. xs) [reordered_returns] () = [return_values_risk ''f.py'']"
proof -
  have "change_type reordered_returns = ''modify''" by (simp add: reordered_returns_def)
  moreover have "modified_interfaces [reordered_returns] = []"
    by (simp add: modified_interfaces_def reordered_returns_def has_any_def)
  ultimately show ?thesis
    by (simp add: analyze_changes_def discovered_risks_def risks_of_change_def
        reordered_modification deduplicate_risks_def analyze_cross_file_impacts_def
        sorted_reverse_def)
qed

text \<open>
  Claim C8, as amended: for a modify or delete change, the risk about modified return
  values is among the risks of the change if and only if the list of removed lines that
  contain \<^verbatim>\<open>return \<close> differs from the list of added lines that contain it. The
  two lists are compared as sequences, in the order of the diff.
\<close>

theorem return_risk_iff_lists_differ:
  assumes "change_type change = ''modify'' \<or> change_type change = ''delete''"
  shows "(\<exists>r \<in> set (risks_of_change set_iter context change). is_return_risk r)
     \<longleftrightarrow> filter (str_in ''return '') (removed_lines (diff change))
           \<noteq> filter (str_in ''return '') (added_lines (diff change))"
proof -
  have "risks_of_change set_iter context change = analyze_modification set_iter change context"
    using assms by (auto simp: risks_of_change_def)
  then show ?thesis
    using check_behavior_changes_return [of "removed_lines (diff change)"
        "added_lines (diff change)" "file_path change"]
    by (auto simp: analyze_modification_def Let_def
        dest: check_api_changes_not_return check_performance_impacts_not_return
              check_security_impacts_not_return)
qed

theorem return_risk_iff_lists_differ_witness:
  "(change_type reordered_returns = ''modify'' \<or> change_type reordered_returns = ''delete'')
   \<and> (\<exists>r \<in> set (risks_of_change (\<lambda>xs. xs) () reordered_returns). is_return_risk r)
   \<and> filter (str_in ''return '') (removed_lines (diff reordered_returns))
         \<noteq> filter (str_in ''return '') (added_lines (diff reordered_returns))"
proof -
  have h: "change_type reordered_returns = ''modify'' \<or> change_type reordered_returns = ''delete''"
    by (simp add: reordered_returns_def)
  have d: "filter (str_in ''return '') (removed_lines (diff reordered_returns))
             \<noteq> filter (str_in ''return '') (added_lines (diff reordered_returns))"
    by (simp add: reordered_lines)
  from return_risk_iff_lists_differ [OF h, of "\<lambda>xs. xs" "()"] d
  have "\<exists>r \<in> set (risks_of_change (\<lambda>xs. xs) () reordered_returns). is_return_risk r"
    by blast
  with h d show ?thesis by blast
qed

text \<open>
  Claim C8 as stated fails: in \<open>reordered_returns\<close> the removed and the added return
  lines are equal as multisets, and the risk is emitted all the same.
\<close>

theorem reordered_returns_counterexample:
  "mset (filter (str_in ''return '') (removed_lines (diff reordered_returns)))
     = mset (filter (str_in ''return '') (added_lines (diff reordered_returns)))
   \<and> analyze_changes (\<lambda>xs. xs) [reordered_returns] () = [return_values_risk ''f.py'']
   \<and> is_return_risk (return_values_risk ''f.py'')"
  by (simp add: reordered_lines reordered_analysis is_return_risk_def return_values_risk_def)

subsection \<open>Deduplication\<close>

text \<open>
  The deduplication key of the specification: type, description and the set of the
  affected components.
\<close>

definition risk_set_key :: "regression_risk \<Rightarrow> string \<times> string \<times> string set" where
  "risk_set_key risk = (risk_type risk, description risk, set (affected_components risk))"

text \<open>
  Every risk of a single change names exactly one component, the file of the change, and
  its description starts with neither \<open>M\<close> nor \<open>L\<close>, the first letters of the
  two descriptions of the rules across changes.
\<close>

definition per_file_risk :: "regression_risk \<Rightarrow> bool" where
  "per_file_risk r = (length (affected_components r) = 1
     \<and> hd (description r) \<noteq> CHR ''M'' \<and> hd (description r) \<noteq> CHR ''L'')"

lemma api_pattern_risks_per_file:
  "r \<in> set (api_pattern_risks pattern removed added fp) \<Longrightarrow> per_file_risk r"
  by (auto simp: api_pattern_risks_def per_file_risk_def split: list.splits if_splits)

lemma param_change_risk_per_file: "per_file_risk (param_change_risk fp pc)"
  by (simp add: param_change_risk_def per_file_risk_def)

lemma check_api_changes_per_file:
  "r \<in> set (check_api_changes set_iter removed added fp) \<Longrightarrow> per_file_risk r"
  by (auto simp: check_api_changes_def param_change_risk_per_file
      dest: api_pattern_risks_per_file)

lemma check_behavior_changes_per_file:
  "r \<in> set (check_behavior_changes removed added fp) \<Longrightarrow> per_file_risk r"
  by (auto simp: check_behavior_changes_def per_file_risk_def Let_def
      control_flow_risk_def return_values_risk_def exception_risk_def split: if_splits)

lemma check_performance_impacts_per_file:
  "r \<in> set (check_performance_impacts removed added fp) \<Longrightarrow> per_file_risk r"
  by (auto simp: check_performance_impacts_def per_file_risk_def Let_def split: if_splits)

lemma check_security_impacts_per_file:
  "r \<in> set (check_security_impacts removed added fp) \<Longrightarrow> per_file_risk r"
  by (auto simp: check_security_impacts_def per_file_risk_def Let_def split: if_splits)

lemma analyze_modification_per_file:
  assumes "r \<in> set (analyze_modification set_iter change ctx)"
  shows "per_file_risk r"
proof -
  let ?rm = "removed_lines (diff change)" and ?ad = "added_lines (diff change)"
  let ?fp = "file_path change"
  from assms have "r \<in> set (check_api_changes set_iter ?rm ?ad ?fp)
      \<or> r \<in> set (check_behavior_changes ?rm ?ad ?fp)
      \<or> r \<in> set (check_performance_impacts ?rm ?ad ?fp)
      \<or> r \<in> set (check_security_impacts ?rm ?ad ?fp)"
    by (simp add: analyze_modification_def Let_def)
  then show ?thesis
  proof (elim disjE)
    assume "r \<in> set (check_api_changes set_iter ?rm ?ad ?fp)"
    then show ?thesis by (rule check_api_changes_per_file)
  next
    assume "r \<in> set (check_behavior_changes ?rm ?ad ?fp)"
    then show ?thesis by (rule check_behavior_changes_per_file)
  next
    assume "r \<in> set (check_performance_impacts ?rm ?ad ?fp)"
    then show ?thesis by (rule check_performance_impacts_per_file)
  next
    assume "r \<in> set (check_security_impacts ?rm ?ad ?fp)"
    then show ?thesis by (rule check_security_impacts_per_file)
  qed
qed

lemma analyze_addition_per_file:
  "r \<in> set (analyze_addition change ctx) \<Longrightarrow> per_file_risk r"
  by (simp add: analyze_addition_def per_file_risk_def split: if_splits)

lemma analyze_rename_per_file:
  "r \<in> set (analyze_rename change ctx) \<Longrightarrow> per_file_risk r"
  by (simp add: analyze_rename_def per_file_risk_def)

lemma risks_of_change_per_file:
  assumes "r \<in> set (risks_of_change set_iter ctx change)"
  shows "per_file_risk r"
proof (cases "change_type change = ''modify'' \<or> change_type change = ''delete''")
  case True
  with assms have "r \<in> set (analyze_modification set_iter change ctx)"
    by (simp add: risks_of_change_def)
  then show ?thesis by (rule analyze_modification_per_file)
next
  case False
  note nm = this
  show ?thesis
  proof (cases "change_type change = ''add''")
    case True
    with nm assms have "r \<in> set (analyze_addition change ctx)"
      by (simp add: risks_of_change_def)
    then show ?thesis by (rule analyze_addition_per_file)
  next
    case False
    with nm assms have "r \<in> set (analyze_rename change ctx)"
      by (simp add: risks_of_change_def split: if_splits)
    then show ?thesis by (rule analyze_rename_per_file)
  qed
qed


lemma cross_file_risks:
  assumes "r \<in> set (analyze_cross_file_impacts set_iter changes ctx)"
  shows "(description r = ''Multiple interfaces modified simultaneously''
            \<and> affected_components r = set_iter (modified_interfaces changes))
         \<or> (description r = ''Large number of files changed''
            \<and> affected_components r = map file_path (take 5 changes) @ [''...''])"
  using assms by (auto simp: analyze_cross_file_impacts_def split: if_splits)

lemma discovered_cases:
  assumes "r \<in> set (discovered_risks set_iter changes ctx)"
  shows "per_file_risk r
         \<or> (description r = ''Multiple interfaces modified simultaneously''
            \<and> affected_components r = set_iter (modified_interfaces changes))
         \<or> (description r = ''Large number of files changed''
            \<and> affected_components r = map file_path (take 5 changes) @ [''...''])"
proof -
  from assms have "(\<exists>change \<in> set changes. r \<in> set (risks_of_change set_iter ctx change))
      \<or> r \<in> set (analyze_cross_file_impacts set_iter changes ctx)"
    by (auto simp: discovered_risks_def)
  then show ?thesis
  proof
    assume "\<exists>change \<in> set changes. r \<in> set (risks_of_change set_iter ctx change)"
    then obtain change where "r \<in> set (risks_of_change set_iter ctx change)" ..
    then have "per_file_risk r" by (rule risks_of_change_per_file)
    then show ?thesis ..
  next
    assume "r \<in> set (analyze_cross_file_impacts set_iter changes ctx)"
    then have "(description r = ''Multiple interfaces modified simultaneously''
            \<and> affected_components r = set_iter (modified_interfaces changes))
         \<or> (description r = ''Large number of files changed''
            \<and> affected_components r = map file_path (take 5 changes) @ [''...''])"
      by (rule cross_file_risks)
    then show ?thesis ..
  qed
qed

text \<open>
  Among the risks that one call discovers, equal keys of the specification are equal keys
  of the code: two lists of one component each are equal when their sets are, and each
  rule across changes appends at most one risk, under a description of its own.
\<close>

lemma singleton_set_eq:
  "length xs = 1 \<Longrightarrow> length ys = 1 \<Longrightarrow> set xs = set ys \<Longrightarrow> xs = ys"
  by (cases xs; cases ys) auto

lemma discovered_set_key_imp_key:
  assumes r1: "r1 \<in> set (discovered_risks set_iter changes ctx)"
      and r2: "r2 \<in> set (discovered_risks set_iter changes ctx)"
      and k: "risk_set_key r1 = risk_set_key r2"
  shows "risk_key r1 = risk_key r2"
proof -
  from k have t: "risk_type r1 = risk_type r2" and d: "description r1 = description r2"
    and s: "set (affected_components r1) = set (affected_components r2)"
    by (simp_all add: risk_set_key_def)
  let ?MI = "description r1 = ''Multiple interfaces modified simultaneously''
            \<and> affected_components r1 = set_iter (modified_interfaces changes)"
  let ?LN = "description r1 = ''Large number of files changed''
            \<and> affected_components r1 = map file_path (take 5 changes) @ [''...'']"
  have c1: "per_file_risk r1 \<or> ?MI \<or> ?LN" using discovered_cases [OF r1] .
  have c2: "per_file_risk r2
         \<or> (description r2 = ''Multiple interfaces modified simultaneously''
            \<and> affected_components r2 = set_iter (modified_interfaces changes))
         \<or> (description r2 = ''Large number of files changed''
            \<and> affected_components r2 = map file_path (take 5 changes) @ [''...''])"
    using discovered_cases [OF r2] .
  have "affected_components r1 = affected_components r2"
  proof (cases "per_file_risk r1")
    case True
    then have h1: "hd (description r1) \<noteq> CHR ''M''" "hd (description r1) \<noteq> CHR ''L''"
      and l1: "length (affected_components r1) = 1"
      by (simp_all add: per_file_risk_def)
    from h1 d c2 have "per_file_risk r2" by auto
    then have "length (affected_components r2) = 1" by (simp add: per_file_risk_def)
    with l1 s show ?thesis by (simp add: singleton_set_eq)
  next
    case False
    with c1 have m: "?MI \<or> ?LN" by simp
    then have "hd (description r1) = CHR ''M'' \<or> hd (description r1) = CHR ''L''" by auto
    with d have "\<not> per_file_risk r2" by (auto simp: per_file_risk_def)
    with c2 m d show ?thesis by auto
  qed
  with t d show ?thesis by (simp add: risk_key_def)
qed


lemma deduplicate_loop_subset: "set (deduplicate_loop seen rs) \<subseteq> set rs"
  by (induction rs arbitrary: seen) auto

lemma deduplicate_loop_keys:
  "risk_key ` set (deduplicate_loop seen rs) = risk_key ` set rs - seen"
  by (induction rs arbitrary: seen) auto

lemma deduplicate_loop_distinct: "distinct (map risk_key (deduplicate_loop seen rs))"
proof (induction rs arbitrary: seen)
  case Nil
  show ?case by simp
next
  case (Cons r rs)
  have "risk_key r \<notin> risk_key ` set (deduplicate_loop (insert (risk_key r) seen) rs)"
    by (simp add: deduplicate_loop_keys)
  with Cons.IH show ?case by simp
qed

lemma analyze_changes_set:
  "set (analyze_changes set_iter changes ctx)
     = set (deduplicate_risks (discovered_risks set_iter changes ctx))"
proof -
  have "mset (analyze_changes set_iter changes ctx)
          = mset (deduplicate_risks (discovered_risks set_iter changes ctx))"
    by (simp add: analyze_changes_def mset_sorted_reverse)
  then show ?thesis by (rule mset_eq_setD)
qed

lemma analyze_changes_distinct_keys:
  "distinct (map risk_key (analyze_changes set_iter changes ctx))"
proof -
  have "mset (map risk_key (analyze_changes set_iter changes ctx))
          = mset (map risk_key (deduplicate_risks (discovered_risks set_iter changes ctx)))"
    by (simp add: analyze_changes_def mset_sorted_reverse)
  then have "distinct (map risk_key (analyze_changes set_iter changes ctx))
          = distinct (map risk_key (deduplicate_risks (discovered_risks set_iter changes ctx)))"
    by (rule mset_eq_imp_distinct_iff)
  then show ?thesis
    by (simp add: deduplicate_risks_def deduplicate_loop_distinct)
qed

text \<open>
  Claim C7: the classifier collapses any two risks whose type, description and set of
  affected components are equal into a single risk of the returned list. The first
  conjunct: no two returned risks have the same such key. The second: the keys of the
  returned risks are exactly the keys of the discovered risks, so every discovered risk
  is represented by the one returned risk of its key.
\<close>

theorem analyze_changes_collapses_set_keys:
  "distinct (map risk_set_key (analyze_changes set_iter changes ctx))
   \<and> risk_set_key ` set (analyze_changes set_iter changes ctx)
       = risk_set_key ` set (discovered_risks set_iter changes ctx)"
proof
  let ?out = "analyze_changes set_iter changes ctx"
  let ?disc = "discovered_risks set_iter changes ctx"
  have sub: "set ?out \<subseteq> set ?disc"
    using deduplicate_loop_subset [of "{}" ?disc]
    by (simp add: analyze_changes_set deduplicate_risks_def)
  have dk: "distinct ?out" "inj_on risk_key (set ?out)"
    using analyze_changes_distinct_keys [of set_iter changes ctx]
    by (simp_all add: distinct_map)
  have "inj_on risk_set_key (set ?out)"
  proof (rule inj_onI)
    fix x y assume x: "x \<in> set ?out" and y: "y \<in> set ?out"
      and e: "risk_set_key x = risk_set_key y"
    from sub x have xd: "x \<in> set ?disc" by (rule subsetD)
    from sub y have yd: "y \<in> set ?disc" by (rule subsetD)
    from xd yd e have "risk_key x = risk_key y" by (rule discovered_set_key_imp_key)
    with dk(2) x y show "x = y" by (simp add: inj_on_def)
  qed
  with dk(1) show "distinct (map risk_set_key ?out)" by (simp add: distinct_map)
  have keys: "risk_key ` set ?out = risk_key ` set ?disc"
    using deduplicate_loop_keys [of "{}" ?disc]
    by (simp add: analyze_changes_set deduplicate_risks_def)
  show "risk_set_key ` set ?out = risk_set_key ` set ?disc"
  proof
    show "risk_set_key ` set ?out \<subseteq> risk_set_key ` set ?disc"
      using sub by (rule image_mono)
    show "risk_set_key ` set ?disc \<subseteq> risk_set_key ` set ?out"
    proof
      fix k assume "k \<in> risk_set_key ` set ?disc"
      then obtain r where r: "r \<in> set ?disc" "k = risk_set_key r" by (rule imageE)
      from r(1) have "risk_key r \<in> risk_key ` set ?out" unfolding keys by (rule imageI)
      then obtain r' where r': "r' \<in> set ?out" "risk_key r = risk_key r'" by (rule imageE)
      from r'(2) have "risk_set_key r' = risk_set_key r"
        by (simp add: risk_key_def risk_set_key_def)
      with r(2) have "k = risk_set_key r'" by simp
      with r'(1) show "k \<in> risk_set_key ` set ?out" by (rule image_eqI [rotated])
    qed
  qed
qed

text \<open>
  \<^verbatim>\<open>_deduplicate_risks\<close> taken alone keys on the tuple of the components and
  keeps two risks whose component lists are \<^verbatim>\<open>['a.py', 'b.py']\<close> and
  \<^verbatim>\<open>['b.py', 'a.py']\<close>; by \<open>discovered_set_key_imp_key\<close> no call of
  \<^verbatim>\<open>analyze_changes\<close> hands it such a pair.
\<close>

definition reordered_pair :: "regression_risk list" where
  "reordered_pair =
     [\<lparr>risk_type = ''behavior_change'', severity = ''high'', description = ''d'',
       affected_components = [''a.py'', ''b.py''], mitigation = None, test_suggestions = []\<rparr>,
      \<lparr>risk_type = ''behavior_change'', severity = ''high'', description = ''d'',
       affected_components = [''b.py'', ''a.py''], mitigation = None, test_suggestions = []\<rparr>]"

lemma deduplicate_risks_order_sensitive:
  "deduplicate_risks reordered_pair = reordered_pair
   \<and> map risk_set_key reordered_pair
       = [(''behavior_change'', ''d'', {''a.py'', ''b.py''}),
          (''behavior_change'', ''d'', {''a.py'', ''b.py''})]"
  by (auto simp: deduplicate_risks_def reordered_pair_def risk_key_def risk_set_key_def)

subsection \<open>Dependence on the iteration order of sets\<close>

























text \<open>A diff that changes the parameter list of one function.\<close>

definition one_signature :: code_change where
  "one_signature = \<lparr>file_path = ''f.py'', change_type = ''modify'',
     diff = ''-def f(a):'' @ [CHR 0x0A] @ ''+def f(a, b):'',
     line_changes = [(''added'', 1), (''removed'', 1)], semantic_changes = []\<rparr>"

lemma one_signature_lines:
  "removed_lines (diff one_signature) = [''def f(a):'']"
  "added_lines (diff one_signature) = [''def f(a, b):'']"
  by (simp_all add: one_signature_def removed_lines_def added_lines_def)

lemma one_signature_funcs:
  "funcs_of [''def f(a):''] = [(''f'', [''a''])]"
  "funcs_of [''def f(a, b):''] = [(''f'', [''a'', ''b''])]"
  by (simp_all add: funcs_of_def record_func_def func_pattern_at_def is_space_def is_word_def
      strip_def)


lemma one_signature_interfaces: "modified_interfaces [one_signature] = []"
  by (simp add: modified_interfaces_def one_signature_def has_any_def)


lemma one_signature_result:
  "map description (analyze_changes rev [one_signature] ()) = [''Function parameters changed: f'']"
  by (simp add: analyze_changes_def discovered_risks_def risks_of_change_def
      analyze_modification_def one_signature_lines check_api_changes_def api_pattern_risks_def
      pattern_defs detect_parameter_changes_def one_signature_funcs set_minus_list_def
      param_change_risk_def check_behavior_changes_def check_performance_impacts_def
      check_security_impacts_def has_any_def fold_case_def deduplicate_risks_def
      analyze_cross_file_impacts_def one_signature_interfaces sorted_reverse_def risk_key_def)
    (simp add: one_signature_def)

end
